theory Spec2Isabelle
  imports Complex_Main
begin

section \<open>The circular-motion simulation model\<close>

text \<open>
  Shallow embedding of the class \<open>CircularMotionSimulationModel\<close> of
  \<^verbatim>\<open>src/pages/SimulationPage.tsx\<close>. The class is a mutable object; every method
  becomes a function from the model before the call to the model after it.

  JavaScript numbers are IEEE doubles. The class is embedded twice. The functions of this
  section compute with exact real arithmetic, \<open>Math.cos\<close>, \<open>Math.sin\<close> and \<open>Math.PI\<close> being
  the real \<open>cos\<close>, \<open>sin\<close> and \<open>pi\<close>; they serve the properties of the state machine, of
  the trajectory sampler and of the frame, in which no rounding takes part. The functions
  named \<open>_double\<close> further down round every arithmetic result to the nearest double, as
  the source does; they serve the properties that the arithmetic decides: the break
  threshold, the range of the angle and the direction of its change. The fields hold finite
  numbers: NaN and the infinities are outside the exact embedding, and in the rounded one
  they occur only as values of the computed force.
\<close>

record Vector2 =
  vec_x :: real
  vec_y :: real

datatype SimulationState = NORMAL_CIRCULAR_MOTION | ROPE_BROKEN

datatype RotationDirection = CLOCKWISE | COUNTERCLOCKWISE

text \<open>
  The fields of the class that some method or the page assigns. \<open>maxTrajectoryPoints\<close> is
  public and is kept as a field; \<open>trajectoryCounter\<close> counts calls and is a natural number.
\<close>

record CircularMotionSimulationModel =
  angle :: real
  mass :: real
  angularVelocity :: real
  maxTension :: real
  radius :: real
  centerPosition :: Vector2
  rotationDirection :: RotationDirection
  state :: SimulationState
  brokenPosition :: Vector2
  brokenVelocity :: Vector2
  trajectoryPoints :: "Vector2 list"
  maxTrajectoryPoints :: nat
  trajectoryCounter :: nat

text \<open>
  The private fields \<open>trajectoryInterval\<close>, \<open>timeScale\<close> and \<open>pixelsPerMeter\<close> have an
  initialiser and are assigned nowhere: they are constants.
\<close>

definition trajectoryInterval :: nat where
  "trajectoryInterval = 3"

definition timeScale :: real where
  "timeScale = 0.016"

definition pixelsPerMeter :: real where
  "pixelsPerMeter = 100"

text \<open>The field initialisers: the model that \<open>new CircularMotionSimulationModel()\<close> builds.\<close>

definition initial_model :: CircularMotionSimulationModel where
  "initial_model =
     \<lparr>angle = 0, mass = 1, angularVelocity = 0.5, maxTension = 5, radius = 1.0,
      centerPosition = \<lparr>vec_x = 300, vec_y = 220\<rparr>,
      rotationDirection = CLOCKWISE,
      state = NORMAL_CIRCULAR_MOTION,
      brokenPosition = \<lparr>vec_x = 0, vec_y = 0\<rparr>,
      brokenVelocity = \<lparr>vec_x = 0, vec_y = 0\<rparr>,
      trajectoryPoints = [],
      maxTrajectoryPoints = 200,
      trajectoryCounter = 0\<rparr>"

text \<open>
  The two getters, as exact products. What the code computes, with a rounding after every
  multiplication, is \<open>centripetalForce_double\<close> and \<open>linearVelocity_double\<close> below.
\<close>

definition centripetalForce :: "CircularMotionSimulationModel \<Rightarrow> real" where
  "centripetalForce m = mass m * angularVelocity m * angularVelocity m * radius m"

definition linearVelocity :: "CircularMotionSimulationModel \<Rightarrow> real" where
  "linearVelocity m = angularVelocity m * radius m"

definition getBlockPosition :: "CircularMotionSimulationModel \<Rightarrow> Vector2" where
  "getBlockPosition m =
     (if state m = NORMAL_CIRCULAR_MOTION then
        (let radiusPixels = radius m * pixelsPerMeter in
         \<lparr>vec_x = vec_x (centerPosition m) + radiusPixels * cos (angle m),
          vec_y = vec_y (centerPosition m) + radiusPixels * sin (angle m) * 0.3\<rparr>)
      else brokenPosition m)"

definition getCurrentVelocity :: "CircularMotionSimulationModel \<Rightarrow> Vector2" where
  "getCurrentVelocity m =
     (let tangentAngle = angle m + pi / 2;
          velocity = linearVelocity m in
      \<lparr>vec_x = velocity * cos tangentAngle,
       vec_y = velocity * sin tangentAngle\<rparr>)"

definition breakRope :: "CircularMotionSimulationModel \<Rightarrow> CircularMotionSimulationModel" where
  "breakRope m =
     (let currentPosition = getBlockPosition m;
          currentVelocity = getCurrentVelocity m in
      m\<lparr>state := ROPE_BROKEN,
        brokenPosition := currentPosition,
        brokenVelocity := currentVelocity\<rparr>)"

text \<open>
  \<open>push\<close> appends a copy of the position; \<open>shift\<close> removes the first element of the array.
\<close>

definition collectTrajectoryPoint ::
  "CircularMotionSimulationModel \<Rightarrow> CircularMotionSimulationModel" where
  "collectTrajectoryPoint m =
     (let m1 = m\<lparr>trajectoryCounter := trajectoryCounter m + 1\<rparr> in
      if trajectoryCounter m1 \<ge> trajectoryInterval then
        (let currentPos = getBlockPosition m1;
             pushed = trajectoryPoints m1 @ [currentPos];
             kept = (if length pushed > maxTrajectoryPoints m1 then tl pushed else pushed) in
         m1\<lparr>trajectoryPoints := kept, trajectoryCounter := 0\<rparr>)
      else m1)"

text \<open>
  \<open>step\<close> ignores its argument \<open>deltaTime\<close>. In the normal state with angular velocity
  zero it returns at once, before the call of \<open>collectTrajectoryPoint\<close> at its end.
\<close>

definition step :: "real \<Rightarrow> CircularMotionSimulationModel \<Rightarrow> CircularMotionSimulationModel" where
  "step deltaTime m =
     (if state m = NORMAL_CIRCULAR_MOTION then
        (if angularVelocity m = 0 then m
         else if centripetalForce m > maxTension m then
           collectTrajectoryPoint (breakRope m)
         else
           (let directionMultiplier = (if rotationDirection m = CLOCKWISE then 1 else - 1);
                a = angle m + angularVelocity m * timeScale * directionMultiplier;
                a' = (if a \<ge> 2 * pi then a - 2 * pi
                      else if a < 0 then a + 2 * pi
                      else a) in
            collectTrajectoryPoint (m\<lparr>angle := a'\<rparr>)))
      else
        (let velocityPixelsPerFrame =
               \<lparr>vec_x = vec_x (brokenVelocity m) * pixelsPerMeter * timeScale,
                vec_y = vec_y (brokenVelocity m) * pixelsPerMeter * timeScale * 0.3\<rparr> in
         collectTrajectoryPoint
           (m\<lparr>brokenPosition :=
                \<lparr>vec_x = vec_x (brokenPosition m) + vec_x velocityPixelsPerFrame,
                 vec_y = vec_y (brokenPosition m) + vec_y velocityPixelsPerFrame\<rparr>\<rparr>)))"

definition reset :: "CircularMotionSimulationModel \<Rightarrow> CircularMotionSimulationModel" where
  "reset m =
     m\<lparr>state := NORMAL_CIRCULAR_MOTION,
       angle := 0,
       brokenPosition := \<lparr>vec_x = 0, vec_y = 0\<rparr>,
       brokenVelocity := \<lparr>vec_x = 0, vec_y = 0\<rparr>,
       trajectoryPoints := [],
       trajectoryCounter := 0\<rparr>"

definition clearTrajectory :: "CircularMotionSimulationModel \<Rightarrow> CircularMotionSimulationModel" where
  "clearTrajectory m = m\<lparr>trajectoryPoints := [], trajectoryCounter := 0\<rparr>"

subsection \<open>Calls and external edits\<close>

text \<open>
  What can happen to the model between two frames: a call of one of its public methods, or
  an assignment to one of the scalar parameter fields, as the page's parameter
  synchronisation does (\<open>modelRef.current.mass = mass\<close> and so on).
\<close>

datatype action =
    Step
  | Reset
  | ClearTrajectory
  | SetMass real
  | SetAngularVelocity real
  | SetMaxTension real
  | SetRadius real
  | SetRotationDirection RotationDirection

fun apply_action :: "CircularMotionSimulationModel \<Rightarrow> action \<Rightarrow> CircularMotionSimulationModel" where
  "apply_action m Step = step 1 m"
| "apply_action m Reset = reset m"
| "apply_action m ClearTrajectory = clearTrajectory m"
| "apply_action m (SetMass v) = m\<lparr>mass := v\<rparr>"
| "apply_action m (SetAngularVelocity v) = m\<lparr>angularVelocity := v\<rparr>"
| "apply_action m (SetMaxTension v) = m\<lparr>maxTension := v\<rparr>"
| "apply_action m (SetRadius v) = m\<lparr>radius := v\<rparr>"
| "apply_action m (SetRotationDirection d) = m\<lparr>rotationDirection := d\<rparr>"

fun run :: "CircularMotionSimulationModel \<Rightarrow> action list \<Rightarrow> CircularMotionSimulationModel" where
  "run m [] = m"
| "run m (a # as) = run (apply_action m a) as"

text \<open>The parameter panel keeps the angular velocity between 0 and 2 rad/s.\<close>

fun in_control_range :: "action \<Rightarrow> bool" where
  "in_control_range (SetAngularVelocity v) = (0 \<le> v \<and> v \<le> 2)"
| "in_control_range _ = True"

section \<open>The model in double precision\<close>

subsection \<open>Rounding to the nearest double\<close>

text \<open>
  A finite double is the real number it denotes. \<open>round_to_double\<close> is the rounding that every
  arithmetic operation of the source applies to its exact result: to the nearest number with
  a 53-bit significand, ties to the even significand. \<open>binade x\<close> is the exponent of the
  binade of \<open>x\<close>, held at -1022 for the subnormal numbers, so that the spacing of the doubles
  around \<open>x\<close> is \<open>pow2 (binade x - 52)\<close>. A result whose rounded magnitude reaches
  \<open>pow2 1024\<close> overflows to an infinity in the source; \<open>finite_result\<close> says that this does
  not happen. The four operations below return the rounded result; they stand for the
  operations of the source wherever that result is finite.
\<close>

definition pow2 :: "int \<Rightarrow> real" where
  "pow2 n = (if 0 \<le> n then 2 ^ nat n else 1 / 2 ^ nat (- n))"

definition round_half_even :: "real \<Rightarrow> int" where
  "round_half_even q =
     (let n = \<lfloor>q\<rfloor>; r = q - of_int n in
      if r < 1 / 2 then n
      else if 1 / 2 < r then n + 1
      else if even n then n else n + 1)"

definition binade :: "real \<Rightarrow> int" where
  "binade x = max \<lfloor>log 2 \<bar>x\<bar>\<rfloor> (- 1022)"

definition round_to_double :: "real \<Rightarrow> real" where
  "round_to_double x =
     (if x = 0 then 0
      else (let u = pow2 (binade x - 52) in of_int (round_half_even (x / u)) * u))"

definition finite_result :: "real \<Rightarrow> bool" where
  "finite_result x = (\<bar>round_to_double x\<bar> < pow2 1024)"

definition mul_double :: "real \<Rightarrow> real \<Rightarrow> real" where
  "mul_double x y = round_to_double (x * y)"

definition add_double :: "real \<Rightarrow> real \<Rightarrow> real" where
  "add_double x y = round_to_double (x + y)"

definition sub_double :: "real \<Rightarrow> real \<Rightarrow> real" where
  "sub_double x y = round_to_double (x - y)"

definition div_double :: "real \<Rightarrow> real \<Rightarrow> real" where
  "div_double x y = round_to_double (x / y)"

text \<open>
  \<open>Math.PI\<close> is the double with the bits 0x400921FB54442D18: the integer
  884279719003555 divided by \<open>2 ^ 48\<close>. The literal \<open>0.016\<close> denotes the double nearest to
  the decimal number; 100 is a double.
\<close>

definition Math_PI :: real where
  "Math_PI = 884279719003555 / 281474976710656"

definition timeScale_double :: real where
  "timeScale_double = round_to_double 0.016"

subsection \<open>The methods, every operation rounded\<close>

text \<open>
  The same methods as above, in the order of evaluation of the source, every product, sum
  and difference rounded. The results of \<open>Math.cos\<close> and \<open>Math.sin\<close> depend on the
  JavaScript engine; the two functions are parameters. The fields hold finite numbers.
\<close>

text \<open>
  The force is a product of three factors read from fields, and a product can overflow. Its
  value is therefore a finite double, an infinity or NaN, and \<open>fp_mul\<close> multiplies such a
  value by a finite factor as IEEE arithmetic does: an overflowing product is the infinity
  of its sign, an infinity keeps or changes its sign with the factor, and an infinity times
  zero is NaN. \<open>fp_greater v y\<close> is the comparison \<open>v > y\<close> with a finite \<open>y\<close>; it is false for
  NaN.
\<close>

datatype double_value = Finite real | PlusInfinity | MinusInfinity | NaN

fun fp_mul :: "double_value \<Rightarrow> real \<Rightarrow> double_value" where
  "fp_mul (Finite x) y =
     (let r = round_to_double (x * y) in
      if \<bar>r\<bar> < pow2 1024 then Finite r
      else if 0 < r then PlusInfinity else MinusInfinity)"
| "fp_mul PlusInfinity y =
     (if y = 0 then NaN else if 0 < y then PlusInfinity else MinusInfinity)"
| "fp_mul MinusInfinity y =
     (if y = 0 then NaN else if 0 < y then MinusInfinity else PlusInfinity)"
| "fp_mul NaN y = NaN"

fun fp_greater :: "double_value \<Rightarrow> real \<Rightarrow> bool" where
  "fp_greater (Finite x) y = (y < x)"
| "fp_greater PlusInfinity y = True"
| "fp_greater MinusInfinity y = False"
| "fp_greater NaN y = False"

definition centripetalForce_double :: "CircularMotionSimulationModel \<Rightarrow> double_value" where
  "centripetalForce_double m =
     fp_mul (fp_mul (fp_mul (Finite (mass m)) (angularVelocity m)) (angularVelocity m)) (radius m)"

definition linearVelocity_double :: "CircularMotionSimulationModel \<Rightarrow> real" where
  "linearVelocity_double m = mul_double (angularVelocity m) (radius m)"

definition getBlockPosition_double ::
  "(real \<Rightarrow> real) \<Rightarrow> (real \<Rightarrow> real) \<Rightarrow> CircularMotionSimulationModel \<Rightarrow> Vector2" where
  "getBlockPosition_double Math_cos Math_sin m =
     (if state m = NORMAL_CIRCULAR_MOTION then
        (let radiusPixels = mul_double (radius m) pixelsPerMeter in
         \<lparr>vec_x = add_double (vec_x (centerPosition m))
                    (mul_double radiusPixels (Math_cos (angle m))),
          vec_y = add_double (vec_y (centerPosition m))
                    (mul_double (mul_double radiusPixels (Math_sin (angle m)))
                       (round_to_double 0.3))\<rparr>)
      else brokenPosition m)"

definition getCurrentVelocity_double ::
  "(real \<Rightarrow> real) \<Rightarrow> (real \<Rightarrow> real) \<Rightarrow> CircularMotionSimulationModel \<Rightarrow> Vector2" where
  "getCurrentVelocity_double Math_cos Math_sin m =
     (let tangentAngle = add_double (angle m) (div_double Math_PI 2);
          velocity = linearVelocity_double m in
      \<lparr>vec_x = mul_double velocity (Math_cos tangentAngle),
       vec_y = mul_double velocity (Math_sin tangentAngle)\<rparr>)"

definition breakRope_double ::
  "(real \<Rightarrow> real) \<Rightarrow> (real \<Rightarrow> real) \<Rightarrow> CircularMotionSimulationModel
     \<Rightarrow> CircularMotionSimulationModel" where
  "breakRope_double Math_cos Math_sin m =
     (let currentPosition = getBlockPosition_double Math_cos Math_sin m;
          currentVelocity = getCurrentVelocity_double Math_cos Math_sin m in
      m\<lparr>state := ROPE_BROKEN,
        brokenPosition := currentPosition,
        brokenVelocity := currentVelocity\<rparr>)"

definition collectTrajectoryPoint_double ::
  "(real \<Rightarrow> real) \<Rightarrow> (real \<Rightarrow> real) \<Rightarrow> CircularMotionSimulationModel
     \<Rightarrow> CircularMotionSimulationModel" where
  "collectTrajectoryPoint_double Math_cos Math_sin m =
     (let m1 = m\<lparr>trajectoryCounter := trajectoryCounter m + 1\<rparr> in
      if trajectoryCounter m1 \<ge> trajectoryInterval then
        (let currentPos = getBlockPosition_double Math_cos Math_sin m1;
             pushed = trajectoryPoints m1 @ [currentPos];
             kept = (if length pushed > maxTrajectoryPoints m1 then tl pushed else pushed) in
         m1\<lparr>trajectoryPoints := kept, trajectoryCounter := 0\<rparr>)
      else m1)"

definition step_double ::
  "(real \<Rightarrow> real) \<Rightarrow> (real \<Rightarrow> real) \<Rightarrow> real \<Rightarrow> CircularMotionSimulationModel
     \<Rightarrow> CircularMotionSimulationModel" where
  "step_double Math_cos Math_sin deltaTime m =
     (if state m = NORMAL_CIRCULAR_MOTION then
        (if angularVelocity m = 0 then m
         else if fp_greater (centripetalForce_double m) (maxTension m) then
           collectTrajectoryPoint_double Math_cos Math_sin (breakRope_double Math_cos Math_sin m)
         else
           (let directionMultiplier = (if rotationDirection m = CLOCKWISE then 1 else - 1);
                a = add_double (angle m)
                      (mul_double (mul_double (angularVelocity m) timeScale_double)
                         directionMultiplier);
                a' = (if a \<ge> mul_double 2 Math_PI then sub_double a (mul_double 2 Math_PI)
                      else if a < 0 then add_double a (mul_double 2 Math_PI)
                      else a) in
            collectTrajectoryPoint_double Math_cos Math_sin (m\<lparr>angle := a'\<rparr>)))
      else
        (let velocityPixelsPerFrame =
               \<lparr>vec_x = mul_double (mul_double (vec_x (brokenVelocity m)) pixelsPerMeter)
                          timeScale_double,
                vec_y = mul_double
                          (mul_double (mul_double (vec_y (brokenVelocity m)) pixelsPerMeter)
                             timeScale_double)
                          (round_to_double 0.3)\<rparr> in
         collectTrajectoryPoint_double Math_cos Math_sin
           (m\<lparr>brokenPosition :=
                \<lparr>vec_x = add_double (vec_x (brokenPosition m)) (vec_x velocityPixelsPerFrame),
                 vec_y = add_double (vec_y (brokenPosition m)) (vec_y velocityPixelsPerFrame)\<rparr>\<rparr>)))"

text \<open>Calls and edits as before, a step being a step in double precision.\<close>

fun apply_action_double ::
  "(real \<Rightarrow> real) \<Rightarrow> (real \<Rightarrow> real) \<Rightarrow> CircularMotionSimulationModel \<Rightarrow> action
     \<Rightarrow> CircularMotionSimulationModel" where
  "apply_action_double Math_cos Math_sin m Step = step_double Math_cos Math_sin 1 m"
| "apply_action_double Math_cos Math_sin m a = apply_action m a"

fun run_double ::
  "(real \<Rightarrow> real) \<Rightarrow> (real \<Rightarrow> real) \<Rightarrow> CircularMotionSimulationModel \<Rightarrow> action list
     \<Rightarrow> CircularMotionSimulationModel" where
  "run_double Math_cos Math_sin m [] = m"
| "run_double Math_cos Math_sin m (a # as) =
     run_double Math_cos Math_sin (apply_action_double Math_cos Math_sin m a) as"

section \<open>Frame lemmas\<close>

lemma collect_other_fields [simp]:
  "angle (collectTrajectoryPoint m) = angle m"
  "mass (collectTrajectoryPoint m) = mass m"
  "angularVelocity (collectTrajectoryPoint m) = angularVelocity m"
  "maxTension (collectTrajectoryPoint m) = maxTension m"
  "radius (collectTrajectoryPoint m) = radius m"
  "centerPosition (collectTrajectoryPoint m) = centerPosition m"
  "rotationDirection (collectTrajectoryPoint m) = rotationDirection m"
  "state (collectTrajectoryPoint m) = state m"
  "brokenPosition (collectTrajectoryPoint m) = brokenPosition m"
  "brokenVelocity (collectTrajectoryPoint m) = brokenVelocity m"
  "maxTrajectoryPoints (collectTrajectoryPoint m) = maxTrajectoryPoints m"
  by (simp_all add: collectTrajectoryPoint_def Let_def)

lemma breakRope_fields [simp]:
  "state (breakRope m) = ROPE_BROKEN"
  "angle (breakRope m) = angle m"
  "brokenPosition (breakRope m) = getBlockPosition m"
  "brokenVelocity (breakRope m) = getCurrentVelocity m"
  "angularVelocity (breakRope m) = angularVelocity m"
  "maxTrajectoryPoints (breakRope m) = maxTrajectoryPoints m"
  "trajectoryPoints (breakRope m) = trajectoryPoints m"
  "trajectoryCounter (breakRope m) = trajectoryCounter m"
  by (simp_all add: breakRope_def Let_def)

lemma step_state:
  "state (step dt m) =
     (if state m = NORMAL_CIRCULAR_MOTION \<and> angularVelocity m \<noteq> 0 \<and> centripetalForce m > maxTension m
      then ROPE_BROKEN else state m)"
  by (simp add: step_def Let_def)

lemma step_angularVelocity [simp]: "angularVelocity (step dt m) = angularVelocity m"
  by (simp add: step_def Let_def)

section \<open>The broken state is terminal\<close>

lemma apply_action_broken:
  "state m = ROPE_BROKEN \<Longrightarrow> a \<noteq> Reset \<Longrightarrow> state (apply_action m a) = ROPE_BROKEN"
  by (cases a) (simp_all add: step_state clearTrajectory_def)

text \<open>
  C4. From every model in the broken state, every sequence of steps, trajectory clearings
  and edits of the scalar parameters (any sequence without a call of \<open>reset()\<close>) leaves
  the state broken; a call of \<open>reset()\<close> after it returns the state to normal.
\<close>

theorem broken_is_terminal:
  assumes "state m = ROPE_BROKEN" and "Reset \<notin> set acts"
  shows "state (run m acts) = ROPE_BROKEN
         \<and> state (reset (run m acts)) = NORMAL_CIRCULAR_MOTION"
proof -
  have "state (run m acts) = ROPE_BROKEN"
    using assms
  proof (induction acts arbitrary: m)
    case Nil
    then show ?case by simp
  next
    case (Cons a as)
    from Cons.prems have "state (apply_action m a) = ROPE_BROKEN"
      by (auto intro: apply_action_broken)
    with Cons show ?case by simp
  qed
  then show ?thesis by (simp add: reset_def)
qed

theorem broken_is_terminal_witness:
  "state (run (run initial_model [SetAngularVelocity 3, Step])
            [Step, SetAngularVelocity 0, Step, SetMass 0, ClearTrajectory, Step]) = ROPE_BROKEN
   \<and> state (reset (run (run initial_model [SetAngularVelocity 3, Step])
            [Step, SetAngularVelocity 0, Step, SetMass 0, ClearTrajectory, Step])) = NORMAL_CIRCULAR_MOTION"
  using broken_is_terminal [of "run initial_model [SetAngularVelocity 3, Step]"
          "[Step, SetAngularVelocity 0, Step, SetMass 0, ClearTrajectory, Step]"]
  by (simp add: step_state initial_model_def centripetalForce_def)

section \<open>The trajectory buffer is bounded\<close>

lemma collect_length_bound:
  "length (trajectoryPoints m) \<le> maxTrajectoryPoints m \<Longrightarrow>
   length (trajectoryPoints (collectTrajectoryPoint m)) \<le> maxTrajectoryPoints m"
  by (simp add: collectTrajectoryPoint_def Let_def)

lemma step_maxTrajectoryPoints [simp]: "maxTrajectoryPoints (step dt m) = maxTrajectoryPoints m"
  by (simp add: step_def Let_def)

lemma step_length_bound:
  assumes "length (trajectoryPoints m) \<le> maxTrajectoryPoints m"
  shows "length (trajectoryPoints (step dt m)) \<le> maxTrajectoryPoints m"
proof -
  have "length (trajectoryPoints (collectTrajectoryPoint m')) \<le> maxTrajectoryPoints m"
    if "trajectoryPoints m' = trajectoryPoints m" "maxTrajectoryPoints m' = maxTrajectoryPoints m"
    for m'
    using collect_length_bound [of m'] that assms by simp
  then show ?thesis
    using assms by (simp add: step_def Let_def)
qed

lemma apply_action_length_bound:
  assumes "length (trajectoryPoints m) \<le> maxTrajectoryPoints m"
  shows "length (trajectoryPoints (apply_action m a)) \<le> maxTrajectoryPoints (apply_action m a)
         \<and> maxTrajectoryPoints (apply_action m a) = maxTrajectoryPoints m"
  using assms step_length_bound [of m 1]
  by (cases a) (simp_all add: reset_def clearTrajectory_def)

lemma run_length_bound:
  "length (trajectoryPoints m) \<le> maxTrajectoryPoints m \<Longrightarrow>
   length (trajectoryPoints (run m acts)) \<le> maxTrajectoryPoints (run m acts)
   \<and> maxTrajectoryPoints (run m acts) = maxTrajectoryPoints m"
proof (induction acts arbitrary: m)
  case Nil
  then show ?case by simp
next
  case (Cons a as)
  from apply_action_length_bound [OF Cons.prems, of a] Cons.IH [of "apply_action m a"]
  show ?case by simp
qed

text \<open>
  C6. After every sequence of steps, resets, trajectory clearings (and parameter edits)
  from the freshly built model, the trajectory buffer holds at most \<open>maxTrajectoryPoints\<close>
  points, and that capacity is still 200. Eviction is first in, first out: when the
  sampler fires on a buffer below capacity the position is appended and nothing is removed;
  when it fires on a full buffer the oldest point is removed, the others keep their order,
  and the position is the last element.
\<close>

theorem trajectory_bounded_fifo:
  "length (trajectoryPoints (run initial_model acts)) \<le> maxTrajectoryPoints (run initial_model acts)
   \<and> maxTrajectoryPoints (run initial_model acts) = 200
   \<and> (trajectoryInterval \<le> trajectoryCounter m + 1 \<longrightarrow>
        (length (trajectoryPoints m) < maxTrajectoryPoints m \<longrightarrow>
           trajectoryPoints (collectTrajectoryPoint m) = trajectoryPoints m @ [getBlockPosition m])
      \<and> (trajectoryPoints m = p # ps \<and> length (p # ps) = maxTrajectoryPoints m \<longrightarrow>
           trajectoryPoints (collectTrajectoryPoint m) = ps @ [getBlockPosition m]))"
proof -
  have "length (trajectoryPoints initial_model) \<le> maxTrajectoryPoints initial_model"
    by (simp add: initial_model_def)
  from run_length_bound [OF this, of acts]
  have bound: "length (trajectoryPoints (run initial_model acts))
                 \<le> maxTrajectoryPoints (run initial_model acts)
               \<and> maxTrajectoryPoints (run initial_model acts) = 200"
    by (simp add: initial_model_def)
  have pos: "getBlockPosition (m\<lparr>trajectoryCounter := c\<rparr>) = getBlockPosition m" for c
    by (simp add: getBlockPosition_def)
  have fifo: "trajectoryInterval \<le> trajectoryCounter m + 1 \<longrightarrow>
        (length (trajectoryPoints m) < maxTrajectoryPoints m \<longrightarrow>
           trajectoryPoints (collectTrajectoryPoint m) = trajectoryPoints m @ [getBlockPosition m])
      \<and> (trajectoryPoints m = p # ps \<and> length (p # ps) = maxTrajectoryPoints m \<longrightarrow>
           trajectoryPoints (collectTrajectoryPoint m) = ps @ [getBlockPosition m])"
    by (auto simp: collectTrajectoryPoint_def Let_def pos)
  from bound fifo show ?thesis by blast
qed

theorem trajectory_bounded_fifo_witness:
  "length (trajectoryPoints (run initial_model [Step, Step, Step, ClearTrajectory, Step, Reset]))
     \<le> 200
   \<and> trajectoryPoints (collectTrajectoryPoint
        (initial_model\<lparr>trajectoryPoints := [\<lparr>vec_x = 1, vec_y = 2\<rparr>, \<lparr>vec_x = 3, vec_y = 4\<rparr>],
                       maxTrajectoryPoints := 2, trajectoryCounter := 2\<rparr>))
       = [\<lparr>vec_x = 3, vec_y = 4\<rparr>, \<lparr>vec_x = 400, vec_y = 220\<rparr>]
   \<and> trajectoryPoints (collectTrajectoryPoint
        (initial_model\<lparr>trajectoryPoints := [\<lparr>vec_x = 1, vec_y = 2\<rparr>, \<lparr>vec_x = 3, vec_y = 4\<rparr>],
                       maxTrajectoryPoints := 3, trajectoryCounter := 2\<rparr>))
       = [\<lparr>vec_x = 1, vec_y = 2\<rparr>, \<lparr>vec_x = 3, vec_y = 4\<rparr>, \<lparr>vec_x = 400, vec_y = 220\<rparr>]"
  using trajectory_bounded_fifo
          [of "[Step, Step, Step, ClearTrajectory, Step, Reset]"
              "initial_model\<lparr>trajectoryPoints := [\<lparr>vec_x = 1, vec_y = 2\<rparr>, \<lparr>vec_x = 3, vec_y = 4\<rparr>],
                       maxTrajectoryPoints := 2, trajectoryCounter := 2\<rparr>"
              "\<lparr>vec_x = 1, vec_y = 2\<rparr>" "[\<lparr>vec_x = 3, vec_y = 4\<rparr>]"]
        trajectory_bounded_fifo
          [of "[Step, Step, Step, ClearTrajectory, Step, Reset]"
              "initial_model\<lparr>trajectoryPoints := [\<lparr>vec_x = 1, vec_y = 2\<rparr>, \<lparr>vec_x = 3, vec_y = 4\<rparr>],
                       maxTrajectoryPoints := 3, trajectoryCounter := 2\<rparr>"
              "\<lparr>vec_x = 1, vec_y = 2\<rparr>" "[\<lparr>vec_x = 3, vec_y = 4\<rparr>]"]
  by (simp add: initial_model_def trajectoryInterval_def getBlockPosition_def pixelsPerMeter_def)

section \<open>Steps in the broken state\<close>

text \<open>
  C7. A step in the broken state leaves angle, break velocity, state, mass, angular
  velocity, tension limit, radius, rotation direction, centre position (and the capacity)
  unchanged. It moves \<open>brokenPosition\<close> by \<open>brokenVelocity\<close> times \<open>pixelsPerMeter\<close> times
  \<open>timeScale\<close>, the y component being multiplied by 0.3 as well. Editing angle and angular
  velocity before the step changes nothing else in its result: the step commutes with
  the edit.
\<close>

theorem broken_step_frame:
  assumes "state m = ROPE_BROKEN"
  shows "angle (step dt m) = angle m
       \<and> brokenVelocity (step dt m) = brokenVelocity m
       \<and> state (step dt m) = state m
       \<and> mass (step dt m) = mass m
       \<and> angularVelocity (step dt m) = angularVelocity m
       \<and> maxTension (step dt m) = maxTension m
       \<and> radius (step dt m) = radius m
       \<and> rotationDirection (step dt m) = rotationDirection m
       \<and> centerPosition (step dt m) = centerPosition m
       \<and> maxTrajectoryPoints (step dt m) = maxTrajectoryPoints m
       \<and> brokenPosition (step dt m) =
            \<lparr>vec_x = vec_x (brokenPosition m) + vec_x (brokenVelocity m) * pixelsPerMeter * timeScale,
             vec_y = vec_y (brokenPosition m)
                       + vec_y (brokenVelocity m) * pixelsPerMeter * timeScale * 0.3\<rparr>
       \<and> step dt (m\<lparr>angle := a, angularVelocity := w\<rparr>)
            = (step dt m)\<lparr>angle := a, angularVelocity := w\<rparr>"
proof -
  have frame: "angle (step dt m) = angle m
       \<and> brokenVelocity (step dt m) = brokenVelocity m
       \<and> state (step dt m) = state m
       \<and> mass (step dt m) = mass m
       \<and> angularVelocity (step dt m) = angularVelocity m
       \<and> maxTension (step dt m) = maxTension m
       \<and> radius (step dt m) = radius m
       \<and> rotationDirection (step dt m) = rotationDirection m
       \<and> centerPosition (step dt m) = centerPosition m
       \<and> maxTrajectoryPoints (step dt m) = maxTrajectoryPoints m"
    using assms by (simp add: step_def Let_def)
  have pos: "brokenPosition (step dt m) =
            \<lparr>vec_x = vec_x (brokenPosition m) + vec_x (brokenVelocity m) * pixelsPerMeter * timeScale,
             vec_y = vec_y (brokenPosition m)
                       + vec_y (brokenVelocity m) * pixelsPerMeter * timeScale * 0.3\<rparr>"
    using assms by (simp add: step_def Let_def)
  have edit: "step dt (m\<lparr>angle := a, angularVelocity := w\<rparr>)
            = (step dt m)\<lparr>angle := a, angularVelocity := w\<rparr>"
    using assms by (simp add: step_def Let_def collectTrajectoryPoint_def getBlockPosition_def)
  from frame pos edit show ?thesis by blast
qed

theorem broken_step_frame_witness:
  "state (run initial_model [SetAngularVelocity 3, Step]) = ROPE_BROKEN
   \<and> brokenPosition (run initial_model [SetAngularVelocity 3, Step]) = \<lparr>vec_x = 400, vec_y = 220\<rparr>
   \<and> brokenVelocity (run initial_model [SetAngularVelocity 3, Step]) = \<lparr>vec_x = 0, vec_y = 3\<rparr>
   \<and> brokenPosition (step 1 (run initial_model [SetAngularVelocity 3, Step]))
        = \<lparr>vec_x = 400, vec_y = 221.44\<rparr>
   \<and> angle (step 1 (run initial_model [SetAngularVelocity 3, Step])) = 0
   \<and> step 1 ((run initial_model [SetAngularVelocity 3, Step])\<lparr>angle := 1, angularVelocity := 0\<rparr>)
        = (step 1 (run initial_model [SetAngularVelocity 3, Step]))\<lparr>angle := 1, angularVelocity := 0\<rparr>"
proof -
  have broken: "state (run initial_model [SetAngularVelocity 3, Step]) = ROPE_BROKEN"
    by (simp add: step_state initial_model_def centripetalForce_def)
  have snapshot:
    "brokenPosition (run initial_model [SetAngularVelocity 3, Step]) = \<lparr>vec_x = 400, vec_y = 220\<rparr>"
    "brokenVelocity (run initial_model [SetAngularVelocity 3, Step]) = \<lparr>vec_x = 0, vec_y = 3\<rparr>"
    "angle (run initial_model [SetAngularVelocity 3, Step]) = 0"
    by (simp_all add: step_def initial_model_def centripetalForce_def getBlockPosition_def
          getCurrentVelocity_def linearVelocity_def pixelsPerMeter_def Let_def)
  from broken_step_frame [OF broken, where dt = 1 and a = 1 and w = 0] broken snapshot show ?thesis
    by (simp add: pixelsPerMeter_def timeScale_def)
qed

section \<open>The velocity captured at the break\<close>

text \<open>
  C2. The claim asks for a break velocity whose tangent sense follows the rotation
  direction. \<open>getCurrentVelocity\<close> takes the tangent angle \<open>angle + pi / 2\<close> whatever the
  direction is: from the freshly built model with angular velocity 3 (force 9 over the
  limit 5), a step breaks the rope and captures the velocity (0, 3) for COUNTERCLOCKWISE
  as well as for CLOCKWISE.
\<close>

theorem break_velocity_ignores_direction:
  "state (step 1 (initial_model\<lparr>angularVelocity := 3, rotationDirection := COUNTERCLOCKWISE\<rparr>))
     = ROPE_BROKEN
   \<and> brokenVelocity
       (step 1 (initial_model\<lparr>angularVelocity := 3, rotationDirection := COUNTERCLOCKWISE\<rparr>))
     = \<lparr>vec_x = 0, vec_y = 3\<rparr>
   \<and> brokenVelocity
       (step 1 (initial_model\<lparr>angularVelocity := 3, rotationDirection := CLOCKWISE\<rparr>))
     = \<lparr>vec_x = 0, vec_y = 3\<rparr>"
  by (simp add: step_def initial_model_def centripetalForce_def getCurrentVelocity_def
        linearVelocity_def Let_def)

section \<open>Trajectory sampling\<close>

lemma getBlockPosition_collect [simp]:
  "getBlockPosition (collectTrajectoryPoint m) = getBlockPosition m"
  by (simp add: getBlockPosition_def)

lemma collect_counter:
  "trajectoryCounter (collectTrajectoryPoint m) =
     (if trajectoryInterval \<le> trajectoryCounter m + 1 then 0 else trajectoryCounter m + 1)"
  by (simp add: collectTrajectoryPoint_def Let_def)

lemma collect_points:
  "trajectoryPoints (collectTrajectoryPoint m) =
     (if trajectoryInterval \<le> trajectoryCounter m + 1 then
        (let pushed = trajectoryPoints m @ [getBlockPosition m] in
         if length pushed > maxTrajectoryPoints m then tl pushed else pushed)
      else trajectoryPoints m)"
  by (simp add: collectTrajectoryPoint_def Let_def getBlockPosition_def)

lemma step_moving:
  assumes "state m = ROPE_BROKEN \<or> angularVelocity m \<noteq> 0"
  shows "\<exists>m'. step dt m = collectTrajectoryPoint m'
          \<and> trajectoryCounter m' = trajectoryCounter m
          \<and> trajectoryPoints m' = trajectoryPoints m
          \<and> maxTrajectoryPoints m' = maxTrajectoryPoints m"
proof (cases "state m")
  case NORMAL_CIRCULAR_MOTION
  with assms have "angularVelocity m \<noteq> 0" by simp
  with NORMAL_CIRCULAR_MOTION show ?thesis
    by (cases "centripetalForce m > maxTension m") (auto simp: step_def Let_def)
next
  case ROPE_BROKEN
  then show ?thesis by (auto simp: step_def Let_def)
qed

lemma step_sample_once:
  assumes "state m = ROPE_BROKEN \<or> angularVelocity m \<noteq> 0"
  shows "trajectoryCounter (step dt m) =
           (if trajectoryInterval \<le> trajectoryCounter m + 1 then 0 else trajectoryCounter m + 1)"
    and "trajectoryPoints (step dt m) =
           (if trajectoryInterval \<le> trajectoryCounter m + 1 then
              (let pushed = trajectoryPoints m @ [getBlockPosition (step dt m)] in
               if length pushed > maxTrajectoryPoints m then tl pushed else pushed)
            else trajectoryPoints m)"
proof -
  from step_moving [OF assms, of dt] obtain m' where
    m': "step dt m = collectTrajectoryPoint m'" "trajectoryCounter m' = trajectoryCounter m"
        "trajectoryPoints m' = trajectoryPoints m" "maxTrajectoryPoints m' = maxTrajectoryPoints m"
    by blast
  show "trajectoryCounter (step dt m) =
           (if trajectoryInterval \<le> trajectoryCounter m + 1 then 0 else trajectoryCounter m + 1)"
    using m' by (simp add: collect_counter)
  show "trajectoryPoints (step dt m) =
           (if trajectoryInterval \<le> trajectoryCounter m + 1 then
              (let pushed = trajectoryPoints m @ [getBlockPosition (step dt m)] in
               if length pushed > maxTrajectoryPoints m then tl pushed else pushed)
            else trajectoryPoints m)"
    using m' by (simp add: collect_points)
qed

lemma step_keeps_moving:
  "state m = ROPE_BROKEN \<or> angularVelocity m \<noteq> 0 \<Longrightarrow>
   state (step dt m) = ROPE_BROKEN \<or> angularVelocity (step dt m) \<noteq> 0"
  by (auto simp: step_state)

lemma steps_sample_count:
  assumes "state m = ROPE_BROKEN \<or> angularVelocity m \<noteq> 0"
    and "trajectoryCounter m < 3"
    and "length (trajectoryPoints m) + (trajectoryCounter m + n) div 3 \<le> maxTrajectoryPoints m"
  shows "(state ((step dt ^^ n) m) = ROPE_BROKEN \<or> angularVelocity ((step dt ^^ n) m) \<noteq> 0)
       \<and> maxTrajectoryPoints ((step dt ^^ n) m) = maxTrajectoryPoints m
       \<and> trajectoryCounter ((step dt ^^ n) m) = (trajectoryCounter m + n) mod 3
       \<and> length (trajectoryPoints ((step dt ^^ n) m))
           = length (trajectoryPoints m) + (trajectoryCounter m + n) div 3"
  using assms(3)
proof (induction n)
  case 0
  with assms(1,2) show ?case by simp
next
  case (Suc n)
  let ?m = "(step dt ^^ n) m"
  have "(trajectoryCounter m + n) div 3 \<le> (trajectoryCounter m + Suc n) div 3"
    by (simp add: div_le_mono)
  with Suc.prems have "length (trajectoryPoints m) + (trajectoryCounter m + n) div 3
                         \<le> maxTrajectoryPoints m"
    by linarith
  from Suc.IH [OF this] have
    mv: "state ?m = ROPE_BROKEN \<or> angularVelocity ?m \<noteq> 0"
    and mx: "maxTrajectoryPoints ?m = maxTrajectoryPoints m"
    and ct: "trajectoryCounter ?m = (trajectoryCounter m + n) mod 3"
    and ln: "length (trajectoryPoints ?m)
               = length (trajectoryPoints m) + (trajectoryCounter m + n) div 3"
    by simp_all
  have counter: "trajectoryCounter (step dt ?m) = (trajectoryCounter m + Suc n) mod 3"
    unfolding step_sample_once(1) [OF mv] ct trajectoryInterval_def by presburger
  have room: "3 \<le> (trajectoryCounter m + n) mod 3 + 1 \<Longrightarrow>
              length (trajectoryPoints ?m) < maxTrajectoryPoints m"
  proof -
    assume "3 \<le> (trajectoryCounter m + n) mod 3 + 1"
    then have "(trajectoryCounter m + Suc n) div 3 = (trajectoryCounter m + n) div 3 + 1"
      by presburger
    with Suc.prems ln show ?thesis by linarith
  qed
  have len: "length (trajectoryPoints (step dt ?m))
               = length (trajectoryPoints m) + (trajectoryCounter m + Suc n) div 3"
  proof (cases "3 \<le> (trajectoryCounter m + n) mod 3 + 1")
    case True
    then have "(trajectoryCounter m + Suc n) div 3 = (trajectoryCounter m + n) div 3 + 1"
      by presburger
    with True room ln show ?thesis
      unfolding step_sample_once(2) [OF mv] ct mx trajectoryInterval_def
      by (simp add: Let_def)
  next
    case False
    then have "(trajectoryCounter m + Suc n) div 3 = (trajectoryCounter m + n) div 3"
      by presburger
    with False ln show ?thesis
      unfolding step_sample_once(2) [OF mv] ct mx trajectoryInterval_def
      by simp
  qed
  from step_keeps_moving [OF mv, of dt] mx counter len show ?case by simp
qed

text \<open>
  C3 (as amended). A step in the normal state with angular velocity zero returns the model
  unchanged: it takes no sample and does not count. Every other step (broken state, or
  nonzero angular velocity) runs the sampler after the position update: the counter goes up
  by one, and when it reaches \<open>trajectoryInterval = 3\<close> the position after the update is
  appended (the oldest point leaving a full buffer) and the counter returns to 0. So from
  counter 0, \<open>3 * k\<close> consecutive such steps append exactly \<open>k\<close> points while the buffer
  stays within its capacity: 30 steps give 10 points.
\<close>

theorem step_samples_unless_at_rest:
  "(state m = NORMAL_CIRCULAR_MOTION \<and> angularVelocity m = 0 \<longrightarrow> step dt m = m)
   \<and> (state m = ROPE_BROKEN \<or> angularVelocity m \<noteq> 0 \<longrightarrow>
        trajectoryCounter (step dt m) =
          (if trajectoryInterval \<le> trajectoryCounter m + 1 then 0 else trajectoryCounter m + 1)
      \<and> trajectoryPoints (step dt m) =
          (if trajectoryInterval \<le> trajectoryCounter m + 1 then
             (let pushed = trajectoryPoints m @ [getBlockPosition (step dt m)] in
              if length pushed > maxTrajectoryPoints m then tl pushed else pushed)
           else trajectoryPoints m)
      \<and> (trajectoryCounter m = 0
           \<and> length (trajectoryPoints m) + k \<le> maxTrajectoryPoints m \<longrightarrow>
             length (trajectoryPoints ((step dt ^^ (3 * k)) m)) = length (trajectoryPoints m) + k
           \<and> trajectoryCounter ((step dt ^^ (3 * k)) m) = 0))"
proof -
  have rest: "state m = NORMAL_CIRCULAR_MOTION \<and> angularVelocity m = 0 \<longrightarrow> step dt m = m"
    by (simp add: step_def)
  have many: "length (trajectoryPoints ((step dt ^^ (3 * k)) m)) = length (trajectoryPoints m) + k
           \<and> trajectoryCounter ((step dt ^^ (3 * k)) m) = 0"
    if "state m = ROPE_BROKEN \<or> angularVelocity m \<noteq> 0" "trajectoryCounter m = 0"
       "length (trajectoryPoints m) + k \<le> maxTrajectoryPoints m"
    using steps_sample_count [of m "3 * k" dt] that by simp
  from rest step_sample_once many show ?thesis by blast
qed

theorem step_samples_unless_at_rest_witness:
  "step 1 (initial_model\<lparr>angularVelocity := 0\<rparr>) = initial_model\<lparr>angularVelocity := 0\<rparr>
   \<and> length (trajectoryPoints ((step 1 ^^ 30) initial_model)) = 10
   \<and> trajectoryCounter ((step 1 ^^ 30) initial_model) = 0"
  using step_samples_unless_at_rest [of "initial_model\<lparr>angularVelocity := 0\<rparr>" 1 0]
        step_samples_unless_at_rest [of initial_model 1 10]
  by (simp add: initial_model_def)

text \<open>
  C3 as stated fails: with angular velocity 0 in the normal state, three steps from the
  freshly built model append no point, and thirty steps do not give ten points.
\<close>

theorem step_at_rest_takes_no_sample:
  "trajectoryPoints (run initial_model [SetAngularVelocity 0, Step, Step, Step]) = []
   \<and> trajectoryCounter (run initial_model [SetAngularVelocity 0, Step, Step, Step]) = 0
   \<and> length (trajectoryPoints ((step 1 ^^ 30) (initial_model\<lparr>angularVelocity := 0\<rparr>))) \<noteq> 10"
proof -
  have at_rest: "step 1 (initial_model\<lparr>angularVelocity := 0\<rparr>) = initial_model\<lparr>angularVelocity := 0\<rparr>"
    by (simp add: step_def initial_model_def)
  have "(step 1 ^^ n) (initial_model\<lparr>angularVelocity := 0\<rparr>) = initial_model\<lparr>angularVelocity := 0\<rparr>"
    for n
    by (induction n) (simp_all add: at_rest)
  then have "trajectoryPoints ((step 1 ^^ 30) (initial_model\<lparr>angularVelocity := 0\<rparr>)) = []"
    by (simp add: initial_model_def)
  with at_rest show ?thesis by (simp add: initial_model_def)
qed

section \<open>Reset\<close>

text \<open>
  C9. \<open>reset()\<close> is idempotent: for every model, two calls in a row give exactly the model
  that one call gives, and that model has angle 0, the normal state, an empty trajectory
  buffer with the counter at 0, and both snapshot vectors zero.
\<close>

theorem reset_idempotent:
  "reset (reset m) = reset m
   \<and> angle (reset m) = 0
   \<and> state (reset m) = NORMAL_CIRCULAR_MOTION
   \<and> trajectoryPoints (reset m) = []
   \<and> trajectoryCounter (reset m) = 0
   \<and> brokenPosition (reset m) = \<lparr>vec_x = 0, vec_y = 0\<rparr>
   \<and> brokenVelocity (reset m) = \<lparr>vec_x = 0, vec_y = 0\<rparr>"
  by (simp add: reset_def)

text \<open>
  C10. For every model, \<open>reset()\<close> puts the state, the angle, the two snapshot vectors and
  the trajectory buffer (with its counter) back to the values of a freshly built model, and
  leaves mass, angular velocity, tension limit, radius, rotation direction and the centre
  position as they were.
\<close>

theorem reset_frame:
  "state (reset m) = state initial_model
   \<and> angle (reset m) = angle initial_model
   \<and> brokenPosition (reset m) = brokenPosition initial_model
   \<and> brokenVelocity (reset m) = brokenVelocity initial_model
   \<and> trajectoryPoints (reset m) = trajectoryPoints initial_model
   \<and> trajectoryCounter (reset m) = trajectoryCounter initial_model
   \<and> mass (reset m) = mass m
   \<and> angularVelocity (reset m) = angularVelocity m
   \<and> maxTension (reset m) = maxTension m
   \<and> radius (reset m) = radius m
   \<and> rotationDirection (reset m) = rotationDirection m
   \<and> centerPosition (reset m) = centerPosition m"
  by (simp add: reset_def initial_model_def)

section \<open>Facts about rounding\<close>

lemma pow2_powr: "pow2 n = 2 powr (of_int n)"
proof (cases "0 \<le> n")
  case True
  then show ?thesis
    by (simp add: pow2_def powr_realpow [symmetric])
next
  case False
  have "(2::real) ^ nat (- n) = 2 powr (real (nat (- n)))"
    by (simp add: powr_realpow)
  also have "real (nat (- n)) = - of_int n"
    using False by simp
  finally have "pow2 n = 1 / 2 powr (- of_int n)"
    using False by (simp add: pow2_def)
  then show ?thesis
    by (simp add: powr_minus_divide)
qed

lemma pow2_pos [simp]: "0 < pow2 n"
  by (simp add: pow2_powr)

lemma pow2_nonneg [simp]: "0 \<le> pow2 n"
  using pow2_pos [of n] by linarith

lemma pow2_neq0 [simp]: "pow2 n \<noteq> 0"
  using pow2_pos [of n] by linarith

lemma binade_eq:
  assumes "pow2 e \<le> \<bar>x\<bar>" "\<bar>x\<bar> < pow2 (e + 1)" "- 1022 \<le> e"
  shows "binade x = e"
proof -
  have "0 < \<bar>x\<bar>" using assms(1) pow2_pos [of e] by linarith
  then have "\<lfloor>log 2 \<bar>x\<bar>\<rfloor> = e"
    using assms(1,2) by (simp add: floor_log_eq_powr_iff pow2_powr)
  with assms(3) show ?thesis by (simp add: binade_def)
qed

lemma round_to_double_at:
  assumes "pow2 e \<le> \<bar>x\<bar>" "\<bar>x\<bar> < pow2 (e + 1)" "- 1022 \<le> e"
  shows "round_to_double x = of_int (round_half_even (x / pow2 (e - 52))) * pow2 (e - 52)"
proof -
  have "0 < pow2 e" by simp
  with assms(1) have "0 < \<bar>x\<bar>" by linarith
  then have "x \<noteq> 0" by auto
  then show ?thesis
    by (simp add: round_to_double_def Let_def binade_eq [OF assms])
qed

lemma round_half_even_bounds:
  "\<lfloor>q\<rfloor> \<le> round_half_even q"
  "round_half_even q \<le> \<lfloor>q\<rfloor> + 1"
  "\<bar>of_int (round_half_even q) - q\<bar> \<le> 1 / 2"
proof -
  have fl: "of_int \<lfloor>q\<rfloor> \<le> q" "q < of_int \<lfloor>q\<rfloor> + 1"
    by linarith+
  show "\<lfloor>q\<rfloor> \<le> round_half_even q" "round_half_even q \<le> \<lfloor>q\<rfloor> + 1"
    by (simp_all add: round_half_even_def Let_def)
  show "\<bar>of_int (round_half_even q) - q\<bar> \<le> 1 / 2"
    using fl by (auto simp: round_half_even_def Let_def)
qed

lemma pow2_mono: "a \<le> b \<Longrightarrow> pow2 a \<le> pow2 b"
  by (simp add: pow2_powr)

lemma binade_upper:
  assumes "x \<noteq> 0" "\<bar>x\<bar> < pow2 k" "- 1021 \<le> k"
  shows "binade x \<le> k - 1"
proof -
  have "log 2 \<bar>x\<bar> < of_int k"
    using assms(1,2) by (simp add: log_less_iff pow2_powr)
  then have "\<lfloor>log 2 \<bar>x\<bar>\<rfloor> < k"
    by (simp add: floor_less_iff)
  with assms(3) show ?thesis by (simp add: binade_def)
qed

lemma round_to_double_nonneg: "0 \<le> x \<Longrightarrow> 0 \<le> round_to_double x"
proof (cases "x = 0")
  case True
  then show ?thesis by (simp add: round_to_double_def)
next
  case False
  assume "0 \<le> x"
  let ?u = "pow2 (binade x - 52)"
  have "0 \<le> x / ?u" using \<open>0 \<le> x\<close> by simp
  then have "0 \<le> \<lfloor>x / ?u\<rfloor>" by simp
  with round_half_even_bounds(1) [of "x / ?u"] have "0 \<le> round_half_even (x / ?u)"
    by linarith
  with False show ?thesis
    by (simp add: round_to_double_def Let_def)
qed

lemma round_to_double_error:
  assumes "\<bar>x\<bar> < 8"
  shows "\<bar>round_to_double x - x\<bar> \<le> 1 / 2 ^ 51"
proof (cases "x = 0")
  case True
  then show ?thesis by (simp add: round_to_double_def)
next
  case False
  let ?u = "pow2 (binade x - 52)"
  have "\<bar>x\<bar> < pow2 3" using assms by (simp add: pow2_def)
  from binade_upper [OF False this] have "binade x - 52 \<le> - 50" by simp
  from pow2_mono [OF this] have u: "?u \<le> 1 / 2 ^ 50" by (simp add: pow2_def)
  have upos: "0 < ?u" by simp
  have "round_to_double x - x = (of_int (round_half_even (x / ?u)) - x / ?u) * ?u"
    using False upos by (simp add: round_to_double_def Let_def field_simps)
  then have "\<bar>round_to_double x - x\<bar> = \<bar>of_int (round_half_even (x / ?u)) - x / ?u\<bar> * ?u"
    using upos by (simp add: abs_mult)
  also have "\<dots> \<le> (1 / 2) * ?u"
    using round_half_even_bounds(3) [of "x / ?u"] upos by (intro mult_right_mono) simp_all
  also have "\<dots> \<le> (1 / 2) * (1 / 2 ^ 50)"
    using u by simp
  finally show ?thesis by simp
qed

lemma round_to_double_below_grid:
  assumes "pow2 e \<le> y" "y < of_int N * pow2 (e - 52)" "of_int N * pow2 (e - 52) \<le> pow2 (e + 1)"
    "- 1022 \<le> e"
  shows "round_to_double y \<le> of_int N * pow2 (e - 52)"
proof -
  let ?u = "pow2 (e - 52)"
  have ypos: "0 < y" using assms(1) pow2_pos [of e] by linarith
  have "round_to_double y = of_int (round_half_even (y / ?u)) * ?u"
    using assms ypos by (intro round_to_double_at) simp_all
  moreover have "y / ?u < of_int N"
    using assms(2) by (simp add: pos_divide_less_eq)
  then have "\<lfloor>y / ?u\<rfloor> < N" by (simp add: floor_less_iff)
  with round_half_even_bounds(2) [of "y / ?u"] have "round_half_even (y / ?u) \<le> N"
    by linarith
  then have "of_int (round_half_even (y / ?u)) * ?u \<le> of_int N * ?u"
    by (intro mult_right_mono) simp_all
  ultimately show ?thesis by simp
qed

lemma round_to_double_nonpos: "x \<le> 0 \<Longrightarrow> round_to_double x \<le> 0"
proof (cases "x = 0")
  case True
  then show ?thesis by (simp add: round_to_double_def)
next
  case False
  assume "x \<le> 0"
  let ?u = "pow2 (binade x - 52)"
  have "x / ?u < 0" using \<open>x \<le> 0\<close> False by (simp add: divide_neg_pos)
  then have "\<lfloor>x / ?u\<rfloor> < 0" by (simp add: floor_less_iff)
  with round_half_even_bounds(2) [of "x / ?u"] have "round_half_even (x / ?u) \<le> 0"
    by linarith
  then have "of_int (round_half_even (x / ?u)) * ?u \<le> 0"
    by (simp add: mult_le_0_iff)
  with False show ?thesis
    by (simp add: round_to_double_def Let_def)
qed

lemma round_to_double_close:
  assumes "\<bar>x\<bar> < 8"
  shows "\<bar>round_to_double x - x\<bar> \<le> 1 / 1000000"
proof -
  have "(1::real) / 2 ^ 51 \<le> 1 / 1000000" by simp
  with round_to_double_error [OF assms] show ?thesis by linarith
qed

lemmas dbl_eval = pow2_def round_half_even_def Let_def

subsection \<open>The constants\<close>

lemma timeScale_double_bounds: "(3 / 200) < timeScale_double" "timeScale_double < (17 / 1000)"
  unfolding timeScale_double_def
  by (simp_all add: round_to_double_at [where e = "- 6"] dbl_eval)

lemma Math_PI_bounds: "3 < Math_PI" "Math_PI < (63 / 20)"
  by (simp_all add: Math_PI_def)

lemma two_Math_PI: "mul_double 2 Math_PI = 2 * Math_PI"
  by (simp add: mul_double_def Math_PI_def round_to_double_at [where e = 2] dbl_eval)

lemma arctan_partial_sums:
  fixes x :: real
  assumes "0 \<le> x" "x \<le> 1"
  shows "(\<Sum>i<2 * n. (- 1) ^ i * (1 / real (i * 2 + 1) * x ^ (i * 2 + 1))) \<le> arctan x"
    and "arctan x \<le> (\<Sum>i<2 * n + 1. (- 1) ^ i * (1 / real (i * 2 + 1) * x ^ (i * 2 + 1)))"
proof -
  let ?a = "\<lambda>n. 1 / real (n * 2 + 1) * x ^ (n * 2 + 1)"
  have zero: "?a \<longlonglongrightarrow> 0"
    using assms by (intro zeroseq_arctan_series) simp
  have pos: "0 \<le> ?a n" for n
    using assms by simp
  have mono: "?a (Suc n) \<le> ?a n" for n
  proof -
    have "1 / real (Suc n * 2 + 1) \<le> 1 / real (n * 2 + 1)"
      by (simp add: field_simps)
    moreover have "x ^ (Suc n * 2 + 1) \<le> x ^ (n * 2 + 1)"
      using assms by (intro power_decreasing) simp_all
    ultimately show ?thesis
      using assms by (intro mult_mono) simp_all
  qed
  have series: "arctan x = (\<Sum>k. (- 1) ^ k * ?a k)"
    using assms by (intro arctan_series) simp
  show "(\<Sum>i<2 * n. (- 1) ^ i * ?a i) \<le> arctan x"
    using summable_Leibniz'(2) [of ?a n, OF zero pos mono] series by simp
  show "arctan x \<le> (\<Sum>i<2 * n + 1. (- 1) ^ i * ?a i)"
    using summable_Leibniz'(4) [of ?a n, OF zero pos mono] series by simp
qed

lemma Math_PI_less_pi: "Math_PI < pi"
proof -
  have lower: "(\<Sum>i<12. (- 1) ^ i * (1 / real (i * 2 + 1) * (1 / 5) ^ (i * 2 + 1))) \<le> arctan (1 / 5)"
    using arctan_partial_sums(1) [of "1 / 5" 6] by simp
  have upper: "arctan (1 / 239) \<le> (\<Sum>i<3. (- 1) ^ i * (1 / real (i * 2 + 1) * (1 / 239) ^ (i * 2 + 1)))"
    using arctan_partial_sums(2) [of "1 / 239" 1] by simp
  have "pi = 16 * arctan (1 / 5) - 4 * arctan (1 / 239)"
    using machin by simp
  with lower upper have "16 * (\<Sum>i<12. (- 1) ^ i * (1 / real (i * 2 + 1) * (1 / 5) ^ (i * 2 + 1)))
      - 4 * (\<Sum>i<3. (- 1) ^ i * (1 / real (i * 2 + 1) * (1 / 239) ^ (i * 2 + 1))) \<le> pi"
    by linarith
  moreover have "Math_PI < 16 * (\<Sum>i<12. (- 1) ^ i * (1 / real (i * 2 + 1) * (1 / 5) ^ (i * 2 + 1)))
      - 4 * (\<Sum>i<3. (- 1) ^ i * (1 / real (i * 2 + 1) * (1 / 239) ^ (i * 2 + 1)))"
    by (simp add: Math_PI_def lessThan_nat_numeral power_one_over)
  ultimately show ?thesis by linarith
qed

section \<open>Frame lemmas in double precision\<close>

lemma collect_double_other_fields [simp]:
  "angle (collectTrajectoryPoint_double c s m) = angle m"
  "angularVelocity (collectTrajectoryPoint_double c s m) = angularVelocity m"
  "state (collectTrajectoryPoint_double c s m) = state m"
  by (simp_all add: collectTrajectoryPoint_double_def Let_def)

lemma breakRope_double_fields [simp]:
  "state (breakRope_double c s m) = ROPE_BROKEN"
  "angle (breakRope_double c s m) = angle m"
  "angularVelocity (breakRope_double c s m) = angularVelocity m"
  by (simp_all add: breakRope_double_def Let_def)

lemma step_double_state:
  "state (step_double c s dt m) =
     (if state m = NORMAL_CIRCULAR_MOTION \<and> angularVelocity m \<noteq> 0
         \<and> fp_greater (centripetalForce_double m) (maxTension m)
      then ROPE_BROKEN else state m)"
  by (simp add: step_double_def Let_def)

lemma step_double_angularVelocity [simp]:
  "angularVelocity (step_double c s dt m) = angularVelocity m"
  by (simp add: step_double_def Let_def)

lemma step_double_angle:
  "angle (step_double c s dt m) =
     (if state m = NORMAL_CIRCULAR_MOTION \<and> angularVelocity m \<noteq> 0
         \<and> \<not> fp_greater (centripetalForce_double m) (maxTension m)
      then
        (let a = add_double (angle m)
                   (mul_double (mul_double (angularVelocity m) timeScale_double)
                      (if rotationDirection m = CLOCKWISE then 1 else - 1)) in
         if a \<ge> mul_double 2 Math_PI then sub_double a (mul_double 2 Math_PI)
         else if a < 0 then add_double a (mul_double 2 Math_PI)
         else a)
      else angle m)"
  by (simp add: step_double_def Let_def)

section \<open>The break threshold\<close>

text \<open>
  C1 as stated fails. The claim compares the exact product \<open>mass * angularVelocity\<^sup>2 * radius\<close>
  with the limit; the code compares the product it computes, rounded after every
  multiplication. With the panel values mass 0.46, angular velocity 1.25, radius 9.6 and
  limit 6.9 the computed force is 6.900000000000001 and the rope breaks, while the exact
  product does not exceed the limit, neither for the doubles that the fields hold nor for
  the decimal numbers themselves.
\<close>

theorem exact_force_threshold_fails:
  "state (step_double cos sin 1
            (initial_model\<lparr>mass := round_to_double 0.46, angularVelocity := 1.25,
                            radius := round_to_double 9.6, maxTension := round_to_double 6.9\<rparr>))
     = ROPE_BROKEN
   \<and> \<not> (round_to_double 0.46 * 1.25\<^sup>2 * round_to_double 9.6 > round_to_double 6.9)
   \<and> \<not> ((0.46::real) * 1.25\<^sup>2 * 9.6 > 6.9)"
  by (simp add: step_double_state centripetalForce_double_def initial_model_def
        round_to_double_at [where e = "- 2"] round_to_double_at [where e = "- 1"]
        round_to_double_at [where e = 2] round_to_double_at [where e = 3] dbl_eval
        power2_eq_square)

text \<open>
  C1 (as amended). For every model in the normal state with positive angular velocity, a
  step moves the state to broken if and only if the force as the code computes it,
  \<open>((mass * angularVelocity) * angularVelocity) * radius\<close> with every product rounded to the
  nearest double, is strictly greater than \<open>maxTension\<close>. With mass 2, radius 1 and limit
  50, a step at angular velocity 4.99 leaves the state normal, one at 5.01 breaks the rope,
  and one at the boundary 5, where the computed force equals the limit, does not break it.
\<close>

theorem step_double_breaks_iff:
  assumes "state m = NORMAL_CIRCULAR_MOTION" and "angularVelocity m > 0"
  shows "((state (step_double Math_cos Math_sin dt m) = ROPE_BROKEN) =
            fp_greater
              (fp_mul (fp_mul (fp_mul (Finite (mass m)) (angularVelocity m)) (angularVelocity m))
                 (radius m))
              (maxTension m))
         \<and> (mass m = 2 \<and> radius m = 1 \<and> maxTension m = 50 \<longrightarrow>
              (angularVelocity m = round_to_double 4.99 \<longrightarrow>
                 state (step_double Math_cos Math_sin dt m) = NORMAL_CIRCULAR_MOTION)
            \<and> (angularVelocity m = round_to_double 5.01 \<longrightarrow>
                 state (step_double Math_cos Math_sin dt m) = ROPE_BROKEN)
            \<and> (angularVelocity m = 5 \<longrightarrow>
                 state (step_double Math_cos Math_sin dt m) = NORMAL_CIRCULAR_MOTION))"
proof -
  have iff: "(state (step_double Math_cos Math_sin dt m) = ROPE_BROKEN)
               = fp_greater (centripetalForce_double m) (maxTension m)"
    using assms by (simp add: step_double_state)
  have below: "state (step_double Math_cos Math_sin dt m) = NORMAL_CIRCULAR_MOTION"
    if "mass m = 2" "radius m = 1" "maxTension m = 50" "angularVelocity m = round_to_double 4.99"
  proof -
    have "\<not> fp_greater (centripetalForce_double m) (maxTension m)"
      unfolding centripetalForce_double_def that
      by (simp add: round_to_double_at [where e = 2] round_to_double_at [where e = 3]
            round_to_double_at [where e = 5] dbl_eval)
    with assms(1) show ?thesis by (simp add: step_double_state)
  qed
  have above: "state (step_double Math_cos Math_sin dt m) = ROPE_BROKEN"
    if "mass m = 2" "radius m = 1" "maxTension m = 50" "angularVelocity m = round_to_double 5.01"
  proof -
    have "fp_greater (centripetalForce_double m) (maxTension m)"
      unfolding centripetalForce_double_def that
      by (simp add: round_to_double_at [where e = 2] round_to_double_at [where e = 3]
            round_to_double_at [where e = 5] dbl_eval)
    with iff show ?thesis by simp
  qed
  have boundary: "state (step_double Math_cos Math_sin dt m) = NORMAL_CIRCULAR_MOTION"
    if "mass m = 2" "radius m = 1" "maxTension m = 50" "angularVelocity m = 5"
  proof -
    have "\<not> fp_greater (centripetalForce_double m) (maxTension m)"
      unfolding centripetalForce_double_def that
      by (simp add: round_to_double_at [where e = 3] round_to_double_at [where e = 5] dbl_eval)
    with assms(1) show ?thesis by (simp add: step_double_state)
  qed
  from iff have "(state (step_double Math_cos Math_sin dt m) = ROPE_BROKEN) =
            fp_greater
              (fp_mul (fp_mul (fp_mul (Finite (mass m)) (angularVelocity m)) (angularVelocity m))
                 (radius m))
              (maxTension m)"
    by (simp add: centripetalForce_double_def)
  with below above boundary show ?thesis by blast
qed

theorem step_double_breaks_iff_witness:
  "state (step_double cos sin 1
       (initial_model\<lparr>mass := 2, maxTension := 50, angularVelocity := round_to_double 4.99\<rparr>))
     = NORMAL_CIRCULAR_MOTION
   \<and> state (step_double cos sin 1
       (initial_model\<lparr>mass := 2, maxTension := 50, angularVelocity := 5\<rparr>))
     = NORMAL_CIRCULAR_MOTION
   \<and> state (step_double cos sin 1
       (initial_model\<lparr>mass := 2, maxTension := 50, angularVelocity := round_to_double 5.01\<rparr>))
     = ROPE_BROKEN"
proof -
  have pos: "0 < round_to_double 4.99" "0 < round_to_double 5.01"
    by (simp_all add: round_to_double_at [where e = 2] dbl_eval)
  from pos
    step_double_breaks_iff [of "initial_model\<lparr>mass := 2, maxTension := 50,
        angularVelocity := round_to_double 4.99\<rparr>" cos sin 1]
    step_double_breaks_iff [of "initial_model\<lparr>mass := 2, maxTension := 50,
        angularVelocity := 5\<rparr>" cos sin 1]
    step_double_breaks_iff [of "initial_model\<lparr>mass := 2, maxTension := 50,
        angularVelocity := round_to_double 5.01\<rparr>" cos sin 1]
  show ?thesis
    by (simp add: initial_model_def)
qed

section \<open>The angle stays in range\<close>

lemma wrap_double_range:
  assumes "- 1 \<le> a" "a \<le> 2 * Math_PI + 1"
  shows "0 \<le> (if a \<ge> mul_double 2 Math_PI then sub_double a (mul_double 2 Math_PI)
               else if a < 0 then add_double a (mul_double 2 Math_PI)
               else a)
       \<and> (if a \<ge> mul_double 2 Math_PI then sub_double a (mul_double 2 Math_PI)
               else if a < 0 then add_double a (mul_double 2 Math_PI)
               else a) \<le> 2 * Math_PI"
proof -
  note pi = Math_PI_bounds
  consider (high) "a \<ge> 2 * Math_PI" | (low) "a < 0" | (mid) "0 \<le> a" "a < 2 * Math_PI"
    by linarith
  then show ?thesis
  proof cases
    case high
    have "0 \<le> a - 2 * Math_PI" using high by simp
    from round_to_double_nonneg [OF this] have lo: "0 \<le> sub_double a (2 * Math_PI)"
      by (simp add: sub_double_def)
    have "\<bar>a - 2 * Math_PI\<bar> < 8" using high assms by simp
    from round_to_double_close [OF this] assms pi
    have "sub_double a (2 * Math_PI) \<le> 2 * Math_PI"
      unfolding sub_double_def by linarith
    with lo high show ?thesis by (simp add: two_Math_PI)
  next
    case low
    have "0 \<le> a + 2 * Math_PI" using assms pi by simp
    from round_to_double_nonneg [OF this] have lo: "0 \<le> add_double a (2 * Math_PI)"
      by (simp add: add_double_def)
    have "round_to_double (a + 2 * Math_PI) \<le> of_int 7074237752028440 * pow2 (2 - 52)"
      using assms pi low
      by (intro round_to_double_below_grid) (simp_all add: pow2_def Math_PI_def)
    then have "add_double a (2 * Math_PI) \<le> 2 * Math_PI"
      by (simp add: add_double_def pow2_def Math_PI_def)
    with lo low pi show ?thesis by (simp add: two_Math_PI)
  next
    case mid
    then show ?thesis by (simp add: two_Math_PI)
  qed
qed

lemma increment_double_bounds:
  assumes "0 \<le> w" "w \<le> 2"
  shows "\<bar>mul_double (mul_double w timeScale_double) (if d = CLOCKWISE then 1 else - 1)\<bar> \<le> (1 / 25)"
proof -
  note ts = timeScale_double_bounds
  have "0 \<le> w * timeScale_double" using assms ts by simp
  moreover have "w * timeScale_double \<le> 2 * (17 / 1000)"
    using assms ts by (intro mult_mono) simp_all
  ultimately have small: "\<bar>w * timeScale_double\<bar> < 8" by simp
  from round_to_double_close [OF small] \<open>0 \<le> w * timeScale_double\<close>
    \<open>w * timeScale_double \<le> 2 * (17 / 1000)\<close>
  have t: "\<bar>mul_double w timeScale_double\<bar> \<le> (7 / 200)"
    unfolding mul_double_def by linarith
  define k :: real where "k = (if d = CLOCKWISE then 1 else - 1)"
  have k: "\<bar>mul_double w timeScale_double * k\<bar> = \<bar>mul_double w timeScale_double\<bar>"
    by (simp add: k_def)
  with t have "\<bar>mul_double w timeScale_double * k\<bar> < 8"
    by linarith
  from round_to_double_close [OF this] t k
  have "\<bar>mul_double (mul_double w timeScale_double) k\<bar> \<le> (1 / 25)"
    unfolding mul_double_def [of "mul_double w timeScale_double" k] by linarith
  then show ?thesis by (simp add: k_def)
qed

lemma step_double_angle_range:
  assumes "0 \<le> angle m" "angle m \<le> 2 * Math_PI" "0 \<le> angularVelocity m" "angularVelocity m \<le> 2"
  shows "0 \<le> angle (step_double c s dt m) \<and> angle (step_double c s dt m) \<le> 2 * Math_PI"
proof -
  let ?d = "mul_double (mul_double (angularVelocity m) timeScale_double)
              (if rotationDirection m = CLOCKWISE then 1 else - 1)"
  let ?a = "add_double (angle m) ?d"
  note pi = Math_PI_bounds
  have d: "\<bar>?d\<bar> \<le> (1 / 25)"
    using increment_double_bounds [OF assms(3,4)] .
  then have "\<bar>angle m + ?d\<bar> < 8" using assms(1,2) pi by simp
  from round_to_double_close [OF this] d assms(1,2)
  have "- 1 \<le> ?a" "?a \<le> 2 * Math_PI + 1"
    unfolding add_double_def [of "angle m" ?d] by linarith+
  from wrap_double_range [OF this] assms(1,2) show ?thesis
    by (simp add: step_double_angle Let_def)
qed

lemma apply_action_double_angle_range:
  assumes "0 \<le> angle m \<and> angle m \<le> 2 * Math_PI \<and> 0 \<le> angularVelocity m \<and> angularVelocity m \<le> 2"
    and "in_control_range a"
  shows "0 \<le> angle (apply_action_double c s m a) \<and> angle (apply_action_double c s m a) \<le> 2 * Math_PI
         \<and> 0 \<le> angularVelocity (apply_action_double c s m a)
         \<and> angularVelocity (apply_action_double c s m a) \<le> 2"
proof (cases a)
  case Step
  with assms step_double_angle_range [of m c s 1] show ?thesis by simp
next
  case Reset
  with assms Math_PI_bounds show ?thesis by (simp add: reset_def)
next
  case ClearTrajectory
  with assms show ?thesis by (simp add: clearTrajectory_def)
qed (use assms in simp_all)

lemma run_double_angle_range:
  assumes "0 \<le> angle m \<and> angle m \<le> 2 * Math_PI \<and> 0 \<le> angularVelocity m \<and> angularVelocity m \<le> 2"
    and "\<forall>a \<in> set acts. in_control_range a"
  shows "0 \<le> angle (run_double c s m acts) \<and> angle (run_double c s m acts) \<le> 2 * Math_PI"
  using assms
proof (induction acts arbitrary: m)
  case Nil
  then show ?case by simp
next
  case (Cons a as)
  have "in_control_range a" using Cons.prems(2) by simp
  from apply_action_double_angle_range [OF Cons.prems(1) this, of c s]
    Cons.IH [of "apply_action_double c s m a"] Cons.prems(2)
  show ?case by simp
qed

text \<open>
  C5. Start from the freshly built model (angle 0) and apply any sequence of steps, resets,
  trajectory clearings and parameter edits in which every assignment to the angular
  velocity is within the control range from 0 to 2 rad/s, the other parameters being
  arbitrary. In double precision, after the sequence, and so after each of its steps, the
  angle is at least 0 and less than \<open>2 * pi\<close>. More precisely it is at most the constant
  \<open>2 * Math.PI\<close> of the program, which a wrapped angle can reach, and that constant lies
  below \<open>2 * pi\<close>. Both branches of the break test keep the bound, so it does not depend on
  how that test comes out.
\<close>

theorem angle_in_range_double:
  assumes "\<forall>a \<in> set acts. in_control_range a"
  shows "0 \<le> angle (run_double Math_cos Math_sin initial_model acts)
       \<and> angle (run_double Math_cos Math_sin initial_model acts) < 2 * pi
       \<and> angle (run_double Math_cos Math_sin initial_model acts) \<le> mul_double 2 Math_PI"
proof -
  have "0 \<le> angle initial_model \<and> angle initial_model \<le> 2 * Math_PI
        \<and> 0 \<le> angularVelocity initial_model \<and> angularVelocity initial_model \<le> 2"
    using Math_PI_bounds by (simp add: initial_model_def)
  from run_double_angle_range [OF this assms, of Math_cos Math_sin] Math_PI_less_pi
  show ?thesis by (simp add: two_Math_PI)
qed

lemmas tiny_eval =
  round_to_double_at [where e = "- 133"] round_to_double_at [where e = "- 73"]
  round_to_double_at [where e = "- 67"] round_to_double_at [where e = "- 6"]
  round_to_double_at [where e = "- 1"] round_to_double_at [where e = 0]
  round_to_double_at [where e = 2]

theorem angle_in_range_double_witness:
  "in_control_range (SetAngularVelocity (round_to_double (1 / 10 ^ 20)))
   \<and> angle (run_double cos sin initial_model
        [SetRotationDirection COUNTERCLOCKWISE,
         SetAngularVelocity (round_to_double (1 / 10 ^ 20)), Step]) = mul_double 2 Math_PI
   \<and> 0 \<le> angle (run_double cos sin initial_model
        [SetRotationDirection COUNTERCLOCKWISE,
         SetAngularVelocity (round_to_double (1 / 10 ^ 20)), Step])
   \<and> angle (run_double cos sin initial_model
        [SetRotationDirection COUNTERCLOCKWISE,
         SetAngularVelocity (round_to_double (1 / 10 ^ 20)), Step]) < 2 * pi"
proof -
  have range: "in_control_range (SetAngularVelocity (round_to_double (1 / 10 ^ 20)))"
    by (simp add: tiny_eval dbl_eval)
  have edge: "angle (run_double cos sin initial_model
        [SetRotationDirection COUNTERCLOCKWISE,
         SetAngularVelocity (round_to_double (1 / 10 ^ 20)), Step]) = mul_double 2 Math_PI"
    by (simp add: step_double_angle centripetalForce_double_def timeScale_double_def
          mul_double_def add_double_def sub_double_def initial_model_def Math_PI_def
          tiny_eval dbl_eval)
  from range edge
    angle_in_range_double [of "[SetRotationDirection COUNTERCLOCKWISE,
         SetAngularVelocity (round_to_double (1 / 10 ^ 20)), Step]" cos sin]
  show ?thesis by simp
qed

section \<open>Rotation direction\<close>

text \<open>
  C8 as stated fails. At angle 1 with the angular velocity \<open>1e-20\<close>, which is positive, the
  increment is below half the spacing of the doubles around 1: the rounded sum is 1 again,
  and the angle neither increases (CLOCKWISE) nor decreases (COUNTERCLOCKWISE).
\<close>

theorem small_increment_absorbed:
  "0 < angularVelocity (initial_model\<lparr>angle := 1, angularVelocity := round_to_double (1 / 10 ^ 20)\<rparr>)
   \<and> \<not> fp_greater
         (centripetalForce_double
            (initial_model\<lparr>angle := 1, angularVelocity := round_to_double (1 / 10 ^ 20)\<rparr>))
         (maxTension (initial_model\<lparr>angle := 1, angularVelocity := round_to_double (1 / 10 ^ 20)\<rparr>))
   \<and> angle (step_double cos sin 1
         (initial_model\<lparr>angle := 1, angularVelocity := round_to_double (1 / 10 ^ 20),
                         rotationDirection := CLOCKWISE\<rparr>)) = 1
   \<and> angle (step_double cos sin 1
         (initial_model\<lparr>angle := 1, angularVelocity := round_to_double (1 / 10 ^ 20),
                         rotationDirection := COUNTERCLOCKWISE\<rparr>)) = 1"
  by (simp add: step_double_angle centripetalForce_double_def timeScale_double_def
        mul_double_def add_double_def sub_double_def initial_model_def Math_PI_def
        tiny_eval dbl_eval)

text \<open>
  C8 (as amended). In the normal state, with positive angular velocity, a computed force that
  is not greater than the tension limit and a sum that does not overflow, a step adds to the
  angle the increment \<open>(angularVelocity * timeScale) * directionSign\<close>, every operation
  rounded, and wraps the
  rounded sum once by \<open>2 * Math.PI\<close>; \<open>directionSign\<close> is +1 for CLOCKWISE, which makes the
  increment non-negative, and -1 for COUNTERCLOCKWISE, which makes it non-positive. For an
  angular velocity from 0.01 to 2 (the nonzero values of the control) and an angle from 0
  to \<open>2 * Math.PI\<close>, the angle before the wrap is strictly greater (CLOCKWISE) or strictly
  smaller (COUNTERCLOCKWISE) than the angle before the step.
\<close>

theorem step_double_direction_sign:
  assumes "state m = NORMAL_CIRCULAR_MOTION" and "angularVelocity m > 0"
    and "\<not> fp_greater (centripetalForce_double m) (maxTension m)"
    and "finite_result (angle m
           + mul_double (mul_double (angularVelocity m) timeScale_double)
               (if rotationDirection m = CLOCKWISE then 1 else - 1))"
  shows "(rotationDirection m = CLOCKWISE \<longrightarrow>
            (let d = mul_double (mul_double (angularVelocity m) timeScale_double) 1;
                 a = add_double (angle m) d in
               0 \<le> d
             \<and> angle (step_double Math_cos Math_sin dt m) =
                 (if a \<ge> mul_double 2 Math_PI then sub_double a (mul_double 2 Math_PI)
                  else if a < 0 then add_double a (mul_double 2 Math_PI)
                  else a)
             \<and> (1 / 100 \<le> angularVelocity m \<and> angularVelocity m \<le> 2
                  \<and> 0 \<le> angle m \<and> angle m \<le> mul_double 2 Math_PI \<longrightarrow> angle m < a)))
       \<and> (rotationDirection m = COUNTERCLOCKWISE \<longrightarrow>
            (let d = mul_double (mul_double (angularVelocity m) timeScale_double) (- 1);
                 a = add_double (angle m) d in
               d \<le> 0
             \<and> angle (step_double Math_cos Math_sin dt m) =
                 (if a \<ge> mul_double 2 Math_PI then sub_double a (mul_double 2 Math_PI)
                  else if a < 0 then add_double a (mul_double 2 Math_PI)
                  else a)
             \<and> (1 / 100 \<le> angularVelocity m \<and> angularVelocity m \<le> 2
                  \<and> 0 \<le> angle m \<and> angle m \<le> mul_double 2 Math_PI \<longrightarrow> a < angle m)))"
proof -
  let ?w = "angularVelocity m"
  let ?t = "mul_double ?w timeScale_double"
  note ts = timeScale_double_bounds
  note pi = Math_PI_bounds
  have wt: "0 \<le> ?w * timeScale_double" using assms(2) ts by simp
  from round_to_double_nonneg [OF this] have t0: "0 \<le> ?t"
    by (simp add: mul_double_def)
  have dcw: "0 \<le> mul_double ?t 1"
    using round_to_double_nonneg [of "?t * 1"] t0 by (simp add: mul_double_def)
  have dccw: "mul_double ?t (- 1) \<le> 0"
    using round_to_double_nonpos [of "?t * (- 1)"] t0 by (simp add: mul_double_def)
  have nz: "?w \<noteq> 0" using assms(2) by simp
  have ang: "angle (step_double Math_cos Math_sin dt m) =
     (let a = add_double (angle m)
                (mul_double ?t (if rotationDirection m = CLOCKWISE then 1 else - 1)) in
      if a \<ge> mul_double 2 Math_PI then sub_double a (mul_double 2 Math_PI)
      else if a < 0 then add_double a (mul_double 2 Math_PI)
      else a)"
    using assms(1,3) nz by (simp add: step_double_angle)
  have strict: "angle m < add_double (angle m) (mul_double ?t 1)
              \<and> add_double (angle m) (mul_double ?t (- 1)) < angle m"
    if range: "1 / 100 \<le> ?w" "?w \<le> 2" "0 \<le> angle m" "angle m \<le> mul_double 2 Math_PI"
  proof -
    have lo: "(1 / 100) * (3 / 200) \<le> ?w * timeScale_double"
      using range ts by (intro mult_mono) simp_all
    have hi: "?w * timeScale_double \<le> 2 * (17 / 1000)"
      using range ts by (intro mult_mono) simp_all
    from lo hi have "\<bar>?w * timeScale_double\<bar> < 8" by simp
    from round_to_double_close [OF this] lo hi
    have t: "1 / 10000 \<le> ?t" "?t \<le> 7 / 200"
      unfolding mul_double_def [of ?w timeScale_double] by linarith+
    have a: "angle m \<le> 2 * Math_PI" using range(4) by (simp add: two_Math_PI)
    have "\<bar>?t * 1\<bar> < 8" using t by simp
    from round_to_double_close [OF this] t
    have d1: "9 / 100000 \<le> mul_double ?t 1" "mul_double ?t 1 \<le> 1 / 25"
      unfolding mul_double_def [of ?t 1] by linarith+
    have "\<bar>?t * (- 1)\<bar> < 8" using t by simp
    from round_to_double_close [OF this] t
    have d2: "mul_double ?t (- 1) \<le> - (9 / 100000)" "- (1 / 25) \<le> mul_double ?t (- 1)"
      unfolding mul_double_def [of ?t "- 1"] by linarith+
    have "\<bar>angle m + mul_double ?t 1\<bar> < 8" using range(3) a pi d1 by simp
    from round_to_double_close [OF this] d1
    have up: "angle m < add_double (angle m) (mul_double ?t 1)"
      unfolding add_double_def [of "angle m" "mul_double ?t 1"] by linarith
    have "\<bar>angle m + mul_double ?t (- 1)\<bar> < 8" using range(3) a pi d2 by simp
    from round_to_double_close [OF this] d2
    have down: "add_double (angle m) (mul_double ?t (- 1)) < angle m"
      unfolding add_double_def [of "angle m" "mul_double ?t (- 1)"] by linarith
    from up down show ?thesis by simp
  qed
  show ?thesis
  proof (cases "rotationDirection m")
    case CLOCKWISE
    with dcw ang strict show ?thesis by (simp add: Let_def)
  next
    case COUNTERCLOCKWISE
    with dccw ang strict show ?thesis by (simp add: Let_def)
  qed
qed

theorem step_double_direction_sign_witness:
  "angle initial_model < angle (step_double cos sin 1 initial_model)
   \<and> angle (step_double cos sin 1 (initial_model\<lparr>angle := 1, rotationDirection := COUNTERCLOCKWISE\<rparr>))
        < angle (initial_model\<lparr>angle := 1, rotationDirection := COUNTERCLOCKWISE\<rparr>)"
proof -
  have force: "\<not> fp_greater (centripetalForce_double initial_model) (maxTension initial_model)"
    "\<not> fp_greater
        (centripetalForce_double (initial_model\<lparr>angle := 1, rotationDirection := COUNTERCLOCKWISE\<rparr>))
        (maxTension (initial_model\<lparr>angle := 1, rotationDirection := COUNTERCLOCKWISE\<rparr>))"
    by (simp_all add: centripetalForce_double_def initial_model_def
          round_to_double_at [where e = "- 1"] round_to_double_at [where e = "- 2"] dbl_eval)
  have nowrap: "\<not> add_double 0 (mul_double (mul_double (1 / 2) timeScale_double) 1)
                   \<ge> mul_double 2 Math_PI"
      "\<not> add_double 0 (mul_double (mul_double (1 / 2) timeScale_double) 1) < 0"
      "\<not> add_double 1 (mul_double (mul_double (1 / 2) timeScale_double) (- 1))
                   \<ge> mul_double 2 Math_PI"
      "\<not> add_double 1 (mul_double (mul_double (1 / 2) timeScale_double) (- 1)) < 0"
    by (simp_all add: timeScale_double_def mul_double_def add_double_def Math_PI_def
          round_to_double_at [where e = "- 7"] round_to_double_at [where e = "- 6"]
          round_to_double_at [where e = "- 1"] round_to_double_at [where e = 2] dbl_eval)
  have finite:
    "finite_result (0 + mul_double (mul_double (1 / 2) timeScale_double) 1)"
    "finite_result (1 + mul_double (mul_double (1 / 2) timeScale_double) (- 1))"
    by (simp_all add: finite_result_def timeScale_double_def mul_double_def
          round_to_double_at [where e = "- 7"] round_to_double_at [where e = "- 6"]
          round_to_double_at [where e = "- 2"] round_to_double_at [where e = "- 1"] dbl_eval)
  from force finite nowrap two_Math_PI Math_PI_bounds
    step_double_direction_sign [of initial_model cos sin 1]
    step_double_direction_sign
      [of "initial_model\<lparr>angle := 1, rotationDirection := COUNTERCLOCKWISE\<rparr>" cos sin 1]
  show ?thesis
    by (simp add: initial_model_def Let_def)
qed

end
